theory Spec2Isabelle
  imports Main "HOL-Library.Word"
begin

unbundle bit_operations_syntax

section \<open>JavaScript values\<close>

text \<open>
  A JavaScript string is a sequence of 16-bit code units. Literals of the source are
  written through \<open>js\<close>, which maps an ASCII literal to its code units.
\<close>

type_synonym cunit = "16 word"
type_synonym jsstring = "cunit list"
type_synonym byte = "8 word"

definition js :: "string \<Rightarrow> jsstring" where
  "js s = map (\<lambda>c. of_nat (of_char c)) s"

text \<open>
  The values \<open>JSON.parse\<close> can return. A number is kept as the bit pattern of its
  IEEE-754 double; an object is the list of its own properties in property order.
  The JavaScript value \<open>undefined\<close> is \<open>None\<close> of \<open>json option\<close>.
\<close>

datatype json =
    JNull
  | JBool bool
  | JNum "64 word"
  | JStr jsstring
  | JArr "json list"
  | JObj "(jsstring \<times> json) list"

type_synonym jsval = "json option"

text \<open>ToBoolean: \<open>undefined\<close>, \<open>null\<close>, \<open>false\<close>, \<open>+0\<close>, \<open>-0\<close>, \<open>NaN\<close> and \<open>""\<close> are falsy.\<close>

fun truthy :: "jsval \<Rightarrow> bool" where
  "truthy None = False"
| "truthy (Some JNull) = False"
| "truthy (Some (JBool b)) = b"
| "truthy (Some (JNum w)) =
     (w AND 0x7FFFFFFFFFFFFFFF \<noteq> 0 \<and> w AND 0x7FFFFFFFFFFFFFFF \<le> 0x7FF0000000000000)"
| "truthy (Some (JStr s)) = (s \<noteq> [])"
| "truthy (Some (JArr xs)) = True"
| "truthy (Some (JObj fs)) = True"

text \<open>\<open>a || b\<close>, and \<open>a || d\<close> with a literal \<open>d\<close>.\<close>

definition or_js :: "jsval \<Rightarrow> jsval \<Rightarrow> jsval" where
  "or_js a b = (if truthy a then a else b)"

definition or_default :: "jsval \<Rightarrow> json \<Rightarrow> json" where
  "or_default a d = (case a of None \<Rightarrow> d | Some v \<Rightarrow> if truthy (Some v) then v else d)"

text \<open>
  \<open>a ?? b\<close>: the right operand is taken when the left one is \<open>undefined\<close> or \<open>null\<close>;
  \<open>nullish_default\<close> is \<open>a ?? d\<close> with a literal \<open>d\<close>.
\<close>

fun nullish :: "jsval \<Rightarrow> jsval \<Rightarrow> jsval" where
  "nullish None b = b"
| "nullish (Some JNull) b = b"
| "nullish (Some v) b = Some v"

fun nullish_default :: "jsval \<Rightarrow> json \<Rightarrow> json" where
  "nullish_default None d = d"
| "nullish_default (Some JNull) d = d"
| "nullish_default (Some v) d = v"

text \<open>
  Reading one of the property names the source uses (\<open>stage\<close>, \<open>status\<close>, \<open>message\<close>,
  \<open>data\<close>, \<open>type\<close>, \<open>summary\<close>, \<open>answer\<close>, \<open>highlights\<close>, \<open>sources\<close>, \<open>success\<close>,
  \<open>error\<close>) from a value that is neither \<open>undefined\<close> nor \<open>null\<close>: an object gives its
  own property, every other value gives \<open>undefined\<close> (no prototype defines these names).
\<close>

fun getp :: "json \<Rightarrow> jsstring \<Rightarrow> jsval" where
  "getp (JObj fs) k = map_of fs k"
| "getp v k = None"

datatype js_error = AbortError | TypeError | Error

text \<open>\<open>v.k\<close> throws a TypeError on \<open>undefined\<close> and \<open>null\<close>; \<open>v?.k\<close> gives \<open>undefined\<close> there.\<close>

fun dot :: "jsval \<Rightarrow> jsstring \<Rightarrow> js_error + jsval" where
  "dot None k = Inl TypeError"
| "dot (Some JNull) k = Inl TypeError"
| "dot (Some v) k = Inr (getp v k)"

fun opt_dot :: "jsval \<Rightarrow> jsstring \<Rightarrow> jsval" where
  "opt_dot None k = None"
| "opt_dot (Some JNull) k = None"
| "opt_dot (Some v) k = getp v k"

subsection \<open>Object literals with a spread\<close>

text \<open>Defining a property: an existing key keeps its place, a new key goes last.\<close>

fun set_field :: "jsstring \<Rightarrow> json \<Rightarrow> (jsstring \<times> json) list \<Rightarrow> (jsstring \<times> json) list" where
  "set_field k v [] = [(k, v)]"
| "set_field k v (p # ps) = (if fst p = k then (k, v) # ps else p # set_field k v ps)"

definition digit :: "nat \<Rightarrow> cunit" where
  "digit n = of_nat (48 + n)"

function decimal :: "nat \<Rightarrow> jsstring" where
  "decimal n = (if n < 10 then [digit n] else decimal (n div 10) @ [digit (n mod 10)])"
  by pat_completeness auto
termination
  by (relation "measure id") auto

declare decimal.simps [simp del]

definition indexed :: "json list \<Rightarrow> (jsstring \<times> json) list" where
  "indexed xs = map (\<lambda>i. (decimal i, xs ! i)) [0..<length xs]"

text \<open>
  \<open>{...v}\<close> copies the own enumerable properties of \<open>v\<close>: the properties of an object,
  the elements of an array and the code units of a string under their indices, and
  nothing for \<open>undefined\<close>, \<open>null\<close>, a boolean or a number.
\<close>

fun spread :: "jsval \<Rightarrow> (jsstring \<times> json) list" where
  "spread (Some (JObj fs)) = fs"
| "spread (Some (JArr xs)) = indexed xs"
| "spread (Some (JStr s)) = indexed (map (\<lambda>c. JStr [c]) s)"
| "spread v = []"

section \<open>The response normalizer\<close>

text \<open>
  \<open>normalizeResponse\<close>, the same in both copies of the page: the spread of \<open>data\<close>, then
  \<open>summary\<close>, \<open>highlights\<close> and \<open>sources\<close> defined in this order.
\<close>

definition normalizeResponse :: "jsval \<Rightarrow> json" where
  "normalizeResponse data =
     JObj (set_field (js ''sources'')
             (case opt_dot data (js ''sources'') of Some (JArr xs) \<Rightarrow> JArr xs | _ \<Rightarrow> JArr [])
          (set_field (js ''highlights'')
             (case opt_dot data (js ''highlights'') of Some (JArr xs) \<Rightarrow> JArr xs | _ \<Rightarrow> JArr [])
          (set_field (js ''summary'')
             (nullish_default
                (nullish (opt_dot data (js ''summary'')) (opt_dot data (js ''answer''))) JNull)
          (spread data))))"

text \<open>The view's \<open>highlightCards\<close>, computed from the stored result.\<close>

definition highlightCards :: "jsval \<Rightarrow> json list" where
  "highlightCards apiData =
     (if \<not> truthy (opt_dot apiData (js ''highlights'')) then []
      else case opt_dot apiData (js ''highlights'') of
             Some (JArr hs) \<Rightarrow>
               map (\<lambda>h. case h of JStr s \<Rightarrow> JObj [(js ''title'', h)] | _ \<Rightarrow> h) hs
           | _ \<Rightarrow> [])"

section \<open>Observable state and the state setters\<close>

record thinking_event =
  stage :: json
  message :: json
  status :: json

record ui_state =
  apiData :: jsval
  loading :: bool
  error :: "jsstring option"
  thinking :: "thinking_event list"
  streamActive :: bool

text \<open>
  One call of a state setter. \<open>PushThinking e\<close> is the functional update
  \<open>setThinking((prev) => [...prev, e].slice(-12))\<close>.
\<close>

datatype effect =
    SetLoading bool
  | SetStreamActive bool
  | SetError "jsstring option"
  | SetApiData jsval
  | SetThinking "thinking_event list"
  | PushThinking thinking_event

text \<open>\<open>xs.slice(-n)\<close>: the last \<open>n\<close> elements, all of them when there are fewer.\<close>

definition slice_last :: "nat \<Rightarrow> 'a list \<Rightarrow> 'a list" where
  "slice_last n xs = drop (length xs - n) xs"

fun apply_effect :: "effect \<Rightarrow> ui_state \<Rightarrow> ui_state" where
  "apply_effect (SetLoading b) s = s\<lparr>loading := b\<rparr>"
| "apply_effect (SetStreamActive b) s = s\<lparr>streamActive := b\<rparr>"
| "apply_effect (SetError e) s = s\<lparr>error := e\<rparr>"
| "apply_effect (SetApiData d) s = s\<lparr>apiData := d\<rparr>"
| "apply_effect (SetThinking evs) s = s\<lparr>thinking := evs\<rparr>"
| "apply_effect (PushThinking e) s = s\<lparr>thinking := slice_last 12 (thinking s @ [e])\<rparr>"

definition run_effects :: "effect list \<Rightarrow> ui_state \<Rightarrow> ui_state" where
  "run_effects effs s = foldl (\<lambda>s e. apply_effect e s) s effs"

section \<open>Classifying one record: processSSELine\<close>

definition is_space :: "cunit \<Rightarrow> bool" where
  "is_space c \<longleftrightarrow>
     c \<in> {0x9, 0xA, 0xB, 0xC, 0xD, 0x20, 0xA0, 0x1680, 0x2028, 0x2029, 0x202F, 0x205F,
          0x3000, 0xFEFF} \<or> (0x2000 \<le> c \<and> c \<le> 0x200A)"

definition trim :: "jsstring \<Rightarrow> jsstring" where
  "trim s = rev (dropWhile is_space (rev (dropWhile is_space s)))"

text \<open>
  The body of the \<open>try\<close> block, on the parsed value. \<open>parsed.stage\<close> throws when
  \<open>parsed\<close> is \<open>null\<close>; nothing else in the block can throw.
\<close>

definition on_parsed :: "json \<Rightarrow> js_error + effect list" where
  "on_parsed parsed =
     (case dot (Some parsed) (js ''stage'') of
        Inl e \<Rightarrow> Inl e
      | Inr top_stage \<Rightarrow>
          let nested = opt_dot (Some parsed) (js ''data'');
              stageLike = or_js top_stage (opt_dot nested (js ''stage''));
              statusLike = or_js (getp parsed (js ''status'')) (opt_dot nested (js ''status''));
              messageLike = or_js (getp parsed (js ''message'')) (opt_dot nested (js ''message''))
          in
          if getp parsed (js ''type'') = Some (JStr (js ''result'')) then
            let responseData = normalizeResponse (getp parsed (js ''data'')) in
            if getp responseData (js ''success'') = Some (JBool False) then
              Inr [SetApiData (Some (JObj (set_field (js ''error'')
                     (or_default (getp responseData (js ''error''))
                        (JStr (js ''The API returned an unsuccessful response.'')))
                     (spread (Some responseData)))))]
            else Inr [SetApiData (Some responseData)]
          else if getp parsed (js ''type'') = Some (JStr (js ''thinking'')) \<or> truthy stageLike then
            Inr [PushThinking
                  \<lparr>stage = or_default stageLike (JStr (js ''thinking'')),
                   message = or_default messageLike (JStr (js '''')),
                   status = or_default statusLike (JStr (js ''info''))\<rparr>]
          else Inr [])"

text \<open>
  \<open>JSON.parse\<close> is the platform's; it is a parameter \<open>parse\<close>, with \<open>None\<close> where it
  throws. Every exception of the \<open>try\<close> block is caught and ignored.
\<close>

type_synonym parser = "jsstring \<Rightarrow> json option"

definition processSSELine :: "parser \<Rightarrow> jsstring \<Rightarrow> effect list" where
  "processSSELine parse data =
     (if data = js ''[DONE]'' \<or> trim data = [] then []
      else case parse data of
             None \<Rightarrow> []
           | Some parsed \<Rightarrow> (case on_parsed parsed of Inl e \<Rightarrow> [] | Inr effs \<Rightarrow> effs))"

section \<open>The text decoder\<close>

text \<open>
  \<open>new TextDecoder()\<close> is the platform's UTF-8 decoder, here as the byte-wise state
  machine of the Encoding Standard. Every call of the source is
  \<open>decode(value, {stream: true})\<close>, so the state is carried from chunk to chunk and is
  never flushed. Malformed input gives U+FFFD, a leading byte order mark is dropped, and
  the code points are written as UTF-16 code units. The masks and shifts of the
  standard are written arithmetically: \<open>b & 0x3F\<close> is \<open>b mod 0x40\<close> and
  \<open>(cp << 6) | x\<close> with \<open>x < 0x40\<close> is \<open>cp * 0x40 + x\<close>.
\<close>

record utf8_decoder =
  code_point :: nat
  bytes_seen :: nat
  bytes_needed :: nat
  lower_boundary :: nat
  upper_boundary :: nat
  bom_seen :: bool

definition new_decoder :: utf8_decoder where
  "new_decoder = \<lparr>code_point = 0, bytes_seen = 0, bytes_needed = 0,
                   lower_boundary = 0x80, upper_boundary = 0xBF, bom_seen = False\<rparr>"

datatype handler_result = Continue | CodePoint nat | DecodeError | DecodeErrorRestore

definition utf8_handler :: "utf8_decoder \<Rightarrow> nat \<Rightarrow> utf8_decoder \<times> handler_result" where
  "utf8_handler d b =
     (if bytes_needed d = 0 then
        if b \<le> 0x7F then (d, CodePoint b)
        else if 0xC2 \<le> b \<and> b \<le> 0xDF then
          (d\<lparr>bytes_needed := 1, code_point := b mod 0x20\<rparr>, Continue)
        else if 0xE0 \<le> b \<and> b \<le> 0xEF then
          (d\<lparr>lower_boundary := (if b = 0xE0 then 0xA0 else lower_boundary d),
             upper_boundary := (if b = 0xED then 0x9F else upper_boundary d),
             bytes_needed := 2, code_point := b mod 0x10\<rparr>, Continue)
        else if 0xF0 \<le> b \<and> b \<le> 0xF4 then
          (d\<lparr>lower_boundary := (if b = 0xF0 then 0x90 else lower_boundary d),
             upper_boundary := (if b = 0xF4 then 0x8F else upper_boundary d),
             bytes_needed := 3, code_point := b mod 0x8\<rparr>, Continue)
        else (d, DecodeError)
      else if \<not> (lower_boundary d \<le> b \<and> b \<le> upper_boundary d) then
        (d\<lparr>code_point := 0, bytes_needed := 0, bytes_seen := 0,
           lower_boundary := 0x80, upper_boundary := 0xBF\<rparr>, DecodeErrorRestore)
      else
        let cp = code_point d * 0x40 + b mod 0x40;
            d1 = d\<lparr>lower_boundary := 0x80, upper_boundary := 0xBF,
                   code_point := cp, bytes_seen := bytes_seen d + 1\<rparr>
        in if bytes_seen d1 \<noteq> bytes_needed d1 then (d1, Continue)
           else (d1\<lparr>code_point := 0, bytes_needed := 0, bytes_seen := 0\<rparr>, CodePoint cp))"

text \<open>One byte of input: the code points it completes, a restored byte being handled again.\<close>

definition decode_byte :: "utf8_decoder \<Rightarrow> byte \<Rightarrow> utf8_decoder \<times> nat list" where
  "decode_byte d b =
     (case utf8_handler d (unat b) of
        (d1, Continue) \<Rightarrow> (d1, [])
      | (d1, CodePoint c) \<Rightarrow> (d1, [c])
      | (d1, DecodeError) \<Rightarrow> (d1, [0xFFFD])
      | (d1, DecodeErrorRestore) \<Rightarrow>
          (case utf8_handler d1 (unat b) of
             (d2, CodePoint c) \<Rightarrow> (d2, [0xFFFD, c])
           | (d2, Continue) \<Rightarrow> (d2, [0xFFFD])
           | (d2, r) \<Rightarrow> (d2, [0xFFFD, 0xFFFD])))"

definition utf16 :: "nat \<Rightarrow> jsstring" where
  "utf16 c = (if c < 0x10000 then [of_nat c]
              else [of_nat (0xD800 + (c - 0x10000) div 0x400),
                    of_nat (0xDC00 + (c - 0x10000) mod 0x400)])"

fun serialize :: "utf8_decoder \<Rightarrow> nat list \<Rightarrow> utf8_decoder \<times> jsstring" where
  "serialize d [] = (d, [])"
| "serialize d (c # cs) =
     (if \<not> bom_seen d then
        (let (d1, out) = serialize (d\<lparr>bom_seen := True\<rparr>) cs
         in (d1, (if c = 0xFEFF then [] else utf16 c) @ out))
      else (let (d1, out) = serialize d cs in (d1, utf16 c @ out)))"

fun decode :: "utf8_decoder \<Rightarrow> byte list \<Rightarrow> utf8_decoder \<times> jsstring" where
  "decode d [] = (d, [])"
| "decode d (b # bs) =
     (let (d1, cps) = decode_byte d b;
          (d2, out1) = serialize d1 cps;
          (d3, out2) = decode d2 bs
      in (d3, out1 @ out2))"

section \<open>The read loop of handleSubmit\<close>

text \<open>\<open>split\<close> on the line feed: never empty; the pieces hold no line feed.\<close>

fun split_nl :: "jsstring \<Rightarrow> jsstring list" where
  "split_nl [] = [[]]"
| "split_nl (c # cs) =
     (if c = 0xA then [] # split_nl cs
      else (case split_nl cs of [] \<Rightarrow> [[c]] | l # ls \<Rightarrow> (c # l) # ls))"

text \<open>\<open>lines.pop() || ""\<close> and what \<open>pop\<close> leaves in \<open>lines\<close>.\<close>

definition pop_or_empty :: "jsstring list \<Rightarrow> jsstring" where
  "pop_or_empty lines = (if lines = [] then [] else last lines)"

definition startsWith :: "jsstring \<Rightarrow> jsstring \<Rightarrow> bool" where
  "startsWith s p \<longleftrightarrow> take (length p) s = p"

text \<open>The \<open>for\<close> loop over the lines: \<open>line.slice(6)\<close> of each line that starts with the prefix.\<close>

definition process_lines :: "parser \<Rightarrow> jsstring list \<Rightarrow> effect list" where
  "process_lines parse lines =
     concat (map (\<lambda>line. if startsWith line (js ''data: '')
                           then processSSELine parse (drop 6 line) else []) lines)"

text \<open>
  What the reader delivers: the chunks in arrival order, then either \<open>done\<close> or a
  rejected read (an AbortError when the controller was aborted).
\<close>

datatype read_end = Done | ReadRejected js_error

fun read_loop ::
  "parser \<Rightarrow> utf8_decoder \<Rightarrow> jsstring \<Rightarrow> byte list list \<Rightarrow> read_end
     \<Rightarrow> effect list \<times> js_error option" where
  "read_loop parse decoder buffer [] Done =
     (if trim buffer \<noteq> [] then process_lines parse (split_nl buffer) else [], None)"
| "read_loop parse decoder buffer [] (ReadRejected e) = ([], Some e)"
| "read_loop parse decoder buffer (v # rest) fin =
     (let (decoder1, text) = decode decoder v;
          lines = split_nl (buffer @ text);
          (effs, r) = read_loop parse decoder1 (pop_or_empty lines) rest fin
      in (process_lines parse (butlast lines) @ effs, r))"

section \<open>handleSubmit\<close>

text \<open>
  The transport as \<open>handleSubmit\<close> sees it: \<open>fetch\<close> rejects (AbortError on abort, TypeError
  on a network failure) or resolves to a response with its \<open>ok\<close> flag and a body, which
  may be missing. The AbortController itself (the abort of the previous request and the
  storing of the new controller) and the scroll timer are not part of the state kept
  here: an abort is seen as the AbortError that \<open>fetch\<close> or a read rejects with.
\<close>

datatype response = Response (ok: bool) (body: "(byte list list \<times> read_end) option")

datatype fetch_result = Rejected js_error | Resolved response

definition no_live_updates :: jsstring where
  "no_live_updates = js ''No live updates available. Try another query.''"

text \<open>The \<open>try\<close> block: the setter calls made, and the exception thrown, if any.\<close>

definition try_block :: "parser \<Rightarrow> fetch_result \<Rightarrow> effect list \<times> js_error option" where
  "try_block parse fr =
     (case fr of
        Rejected e \<Rightarrow> ([], Some e)
      | Resolved r \<Rightarrow>
          if \<not> ok r then ([], Some Error)
          else (case body r of
                  None \<Rightarrow> ([], Some Error)
                | Some (chunks, fin) \<Rightarrow> read_loop parse new_decoder [] chunks fin))"

definition handleSubmit :: "parser \<Rightarrow> fetch_result \<Rightarrow> effect list" where
  "handleSubmit parse fr =
     [SetLoading True, SetStreamActive True, SetError None, SetApiData None, SetThinking []] @
     (case try_block parse fr of
        (effs, None) \<Rightarrow> effs @ [SetStreamActive False, SetLoading False]
      | (effs, Some err) \<Rightarrow>
          effs @ (if err \<noteq> AbortError then [SetError (Some no_live_updates)] else []) @
          [SetStreamActive False, SetLoading False])"

section \<open>Notions used to state the properties\<close>

text \<open>The state of the page before any submission.\<close>

definition initial_state :: ui_state where
  "initial_state = \<lparr>apiData = None, loading = False, error = None, thinking = [],
                     streamActive = False\<rparr>"

text \<open>The setter calls \<open>processSSELine\<close> can make, and those that store a result.\<close>

fun is_record_effect :: "effect \<Rightarrow> bool" where
  "is_record_effect (SetApiData d) = True"
| "is_record_effect (PushThinking e) = True"
| "is_record_effect e = False"

fun is_result_effect :: "effect \<Rightarrow> bool" where
  "is_result_effect (SetApiData d) = True"
| "is_result_effect e = False"

text \<open>The error messages a run of setter calls shows, in order.\<close>

fun error_messages :: "effect list \<Rightarrow> jsstring list" where
  "error_messages [] = []"
| "error_messages (SetError (Some m) # es) = m # error_messages es"
| "error_messages (e # es) = error_messages es"

text \<open>
  The transport fails, other than by an abort: \<open>fetch\<close> rejects, the status is not OK, the
  body is missing, or a read rejects.
\<close>

fun transport_failed :: "fetch_result \<Rightarrow> bool" where
  "transport_failed (Rejected e) = (e \<noteq> AbortError)"
| "transport_failed (Resolved (Response k None)) = True"
| "transport_failed (Resolved (Response k (Some (chunks, Done)))) = (\<not> k)"
| "transport_failed (Resolved (Response k (Some (chunks, ReadRejected e)))) =
     (\<not> k \<or> e \<noteq> AbortError)"

text \<open>
  The precedence among a top-level value, a nested value and a default, by truthiness:
  \<open>chosen outer inner d v\<close> says that \<open>v\<close> is the right choice.
\<close>

definition chosen :: "jsval \<Rightarrow> jsval \<Rightarrow> json \<Rightarrow> json \<Rightarrow> bool" where
  "chosen outer inner d v \<longleftrightarrow>
     (truthy outer \<longrightarrow> outer = Some v) \<and>
     (\<not> truthy outer \<and> truthy inner \<longrightarrow> inner = Some v) \<and>
     (\<not> truthy outer \<and> \<not> truthy inner \<longrightarrow> v = d)"

text \<open>A string highlight as a card with that title; any other element as it is.\<close>

fun coerce_highlight :: "json \<Rightarrow> json" where
  "coerce_highlight (JStr s) = JObj [(js ''title'', JStr s)]"
| "coerce_highlight v = v"

subsection \<open>Sample inputs\<close>

definition ascii :: "string \<Rightarrow> byte list" where
  "ascii s = map (\<lambda>c. of_nat (of_char c)) s"

text \<open>A parser that knows two payloads and rejects every other text.\<close>

definition sample_parse :: parser where
  \<open>sample_parse s =
     (if s = js ''{"stage":"fetch"}'' then Some (JObj [(js ''stage'', JStr (js ''fetch''))])
      else if s = js ''{"type":"result"}'' then Some (JObj [(js ''type'', JStr (js ''result''))])
      else None)\<close>

definition fetch_event :: thinking_event where
  "fetch_event = \<lparr>stage = JStr (js ''fetch''), message = JStr (js ''''),
                   status = JStr (js ''info'')\<rparr>"

definition empty_result :: json where
  "empty_result = JObj [(js ''summary'', JNull), (js ''highlights'', JArr []),
                        (js ''sources'', JArr [])]"

text \<open>One progress record, as one line of the stream.\<close>

definition fetch_line :: "byte list" where
  \<open>fetch_line = ascii (''data: {"stage":"fetch"}'' @ [CHR 0x0A])\<close>

text \<open>
  A progress record, a record cut short, and a result record; the chunk boundary falls
  inside the second payload.
\<close>

definition three_record_chunks :: "byte list list" where
  \<open>three_record_chunks =
     [ascii (''data: {"stage":"fetch"}'' @ [CHR 0x0A] @ ''data: {"sta''),
      ascii (''ge":'' @ [CHR 0x0A] @ ''data: {"type":"result"}'' @ [CHR 0x0A])]\<close>

text \<open>\<open>{type: "thinking", message: "", data: {message: "nested"}}\<close>\<close>

definition falsy_top_record :: json where
  "falsy_top_record =
     JObj [(js ''type'', JStr (js ''thinking'')), (js ''message'', JStr (js '''')),
           (js ''data'', JObj [(js ''message'', JStr (js ''nested''))])]"

text \<open>\<open>{stage: "fetch", data: {stage: "rank", message: "Searching"}}\<close>\<close>

definition both_levels_record :: json where
  "both_levels_record =
     JObj [(js ''stage'', JStr (js ''fetch'')),
           (js ''data'', JObj [(js ''stage'', JStr (js ''rank'')),
                               (js ''message'', JStr (js ''Searching''))])]"

text \<open>\<open>{type: "result", summary: "top", data: "ab"}\<close>\<close>

definition string_data_record :: json where
  "string_data_record =
     JObj [(js ''type'', JStr (js ''result'')), (js ''summary'', JStr (js ''top'')),
           (js ''data'', JStr (js ''ab''))]"

text \<open>\<open>{summary: "Team A won", highlights: [{title: "Goal"}], sources: []}\<close>\<close>

definition normalized_sample :: "(jsstring \<times> json) list" where
  "normalized_sample =
     [(js ''summary'', JStr (js ''Team A won'')),
      (js ''highlights'', JArr [JObj [(js ''title'', JStr (js ''Goal''))]]),
      (js ''sources'', JArr [])]"

section \<open>Chunk invariance of the read loop\<close>

lemma split_nl_ne [simp]: "split_nl s \<noteq> []"
  by (induction s) (auto split: list.splits)

lemma split_nl_append:
  "split_nl (a @ b) = butlast (split_nl a) @ split_nl (last (split_nl a) @ b)"
proof (induction a)
  case Nil
  show ?case by simp
next
  case (Cons c a)
  show ?case
  proof (cases "c = 0xA")
    case True
    with Cons show ?thesis by simp
  next
    case False
    obtain l ls where s: "split_nl a = l # ls"
      by (cases "split_nl a") simp_all
    show ?thesis
    proof (cases ls)
      case Nil
      with False s Cons show ?thesis by simp
    next
      case (Cons l2 ls2)
      with False s Cons.IH show ?thesis by simp
    qed
  qed
qed

lemma last_split_nl_no_nl: "0xA \<notin> set (last (split_nl s))"
  by (induction s) (auto split: list.splits)

lemma split_nl_no_nl: "0xA \<notin> set s \<Longrightarrow> split_nl s = [s]"
  by (induction s) auto

lemma serialize_append:
  "serialize d (a @ b) =
     (let (d1, o1) = serialize d a; (d2, o2) = serialize d1 b in (d2, o1 @ o2))"
  by (induction a arbitrary: d) (auto split: prod.splits)

lemma decode_append:
  "decode d (a @ b) =
     (let (d1, o1) = decode d a; (d2, o2) = decode d1 b in (d2, o1 @ o2))"
  by (induction a arbitrary: d) (auto split: prod.splits)

lemma process_lines_append:
  "process_lines parse (a @ b) = process_lines parse a @ process_lines parse b"
  by (simp add: process_lines_def)

lemma read_loop_Cons:
  "read_loop parse d buffer (v # rest) fin =
     (process_lines parse (butlast (split_nl (buffer @ snd (decode d v)))) @
        fst (read_loop parse (fst (decode d v))
               (pop_or_empty (split_nl (buffer @ snd (decode d v)))) rest fin),
      snd (read_loop parse (fst (decode d v))
             (pop_or_empty (split_nl (buffer @ snd (decode d v)))) rest fin))"
  by (simp add: Let_def split: prod.splits)

lemma read_loop_concat:
  "0xA \<notin> set buffer \<Longrightarrow>
   read_loop parse d buffer chunks fin = read_loop parse d buffer [concat chunks] fin"
proof (induction chunks arbitrary: d buffer)
  case Nil
  then show ?case
    by (simp add: split_nl_no_nl pop_or_empty_def process_lines_def split: prod.splits)
next
  case (Cons v rest)
  obtain d1 t where dv: "decode d v = (d1, t)" by (cases "decode d v")
  obtain d2 t2 where dr: "decode d1 (concat rest) = (d2, t2)" by (cases "decode d1 (concat rest)")
  let ?lines = "split_nl (buffer @ t)"
  let ?lines2 = "split_nl (last ?lines @ t2)"
  have nn: "0xA \<notin> set (last ?lines)"
    by (simp add: last_split_nl_no_nl)
  have whole: "decode d (v @ concat rest) = (d2, t @ t2)"
    by (simp add: decode_append dv dr)
  have sp: "split_nl (buffer @ t @ t2) = butlast ?lines @ ?lines2"
    using split_nl_append [of "buffer @ t" t2] by simp
  have bl: "butlast (split_nl (buffer @ t @ t2)) = butlast ?lines @ butlast ?lines2"
    by (simp add: sp butlast_append)
  have la: "last (split_nl (buffer @ t @ t2)) = last ?lines2"
    by (simp add: sp)
  have step2: "read_loop parse d1 (last ?lines) [concat rest] fin =
      (process_lines parse (butlast ?lines2) @ fst (read_loop parse d2 (last ?lines2) [] fin),
       snd (read_loop parse d2 (last ?lines2) [] fin))"
    by (simp only: read_loop_Cons dr fst_conv snd_conv pop_or_empty_def split_nl_ne if_False)
  have "read_loop parse d buffer (v # rest) fin =
          (process_lines parse (butlast ?lines) @ fst (read_loop parse d1 (last ?lines) rest fin),
           snd (read_loop parse d1 (last ?lines) rest fin))"
    by (simp only: read_loop_Cons dv fst_conv snd_conv pop_or_empty_def split_nl_ne if_False)
  also have "\<dots> =
          (process_lines parse (butlast ?lines) @
             fst (read_loop parse d1 (last ?lines) [concat rest] fin),
           snd (read_loop parse d1 (last ?lines) [concat rest] fin))"
    by (simp only: Cons.IH [OF nn, of d1])
  also have "\<dots> =
          (process_lines parse (butlast ?lines @ butlast ?lines2) @
             fst (read_loop parse d2 (last ?lines2) [] fin),
           snd (read_loop parse d2 (last ?lines2) [] fin))"
    by (simp only: step2 fst_conv snd_conv process_lines_append append_assoc)
  also have "\<dots> = read_loop parse d buffer [v @ concat rest] fin"
    by (simp only: read_loop_Cons whole fst_conv snd_conv pop_or_empty_def split_nl_ne if_False
          append_assoc bl la)
  finally show ?case by simp
qed

text \<open>
  The decoder holds back the first bytes of a character until the rest arrives in a later
  chunk: \<open>C3 A9\<close> is U+00E9 and \<open>F0 9F 98 80\<close> is the surrogate pair of U+1F600.
\<close>

lemma decoder_carries_partial_character:
  "snd (decode new_decoder [0xC3]) = [] \<and>
   snd (decode (fst (decode new_decoder [0xC3])) [0xA9]) = [0xE9] \<and>
   snd (decode new_decoder [0xC3, 0xA9]) = [0xE9] \<and>
   snd (decode (fst (decode new_decoder [0xF0, 0x9F])) [0x98, 0x80]) = [0xD83D, 0xDE00]"
  by (simp add: decode_byte_def utf8_handler_def new_decoder_def utf16_def)

text \<open>
  C1 (chunk invariance). However the reader cuts the byte stream into chunks, also inside
  a multi-byte character or inside a payload, the read loop makes the same setter calls in
  the same order, and ends the same way, as on the whole stream delivered as one chunk;
  so does \<open>handleSubmit\<close>.
\<close>

theorem chunk_invariance:
  "read_loop parse new_decoder [] chunks fin =
     read_loop parse new_decoder [] [concat chunks] fin \<and>
   handleSubmit parse (Resolved (Response True (Some (chunks, fin)))) =
     handleSubmit parse (Resolved (Response True (Some ([concat chunks], fin))))"
  using read_loop_concat [of "[]" parse new_decoder chunks fin]
  by (simp add: handleSubmit_def try_block_def)

section \<open>Setter calls and the state they leave\<close>

lemma run_effects_Nil: "run_effects [] s = s"
  by (simp add: run_effects_def)

lemma run_effects_Cons: "run_effects (e # es) s = run_effects es (apply_effect e s)"
  by (simp add: run_effects_def)

lemma run_effects_append: "run_effects (a @ b) s = run_effects b (run_effects a s)"
  by (simp add: run_effects_def)

lemma run_effects_snoc: "run_effects (effs @ [e]) s = apply_effect e (run_effects effs s)"
  by (simp add: run_effects_def)

lemma opt_dot_Some: "r \<noteq> JNull \<Longrightarrow> opt_dot (Some r) k = getp r k"
  by (cases r) simp_all

lemma dot_Some: "r \<noteq> JNull \<Longrightarrow> dot (Some r) k = Inr (getp r k)"
  by (cases r) simp_all

lemma getp_Some_not_null: "getp r k = Some v \<Longrightarrow> r \<noteq> JNull"
  by (cases r) simp_all

lemma map_of_set_field:
  "map_of (set_field k v fs) k' = (if k' = k then Some v else map_of fs k')"
  by (induction fs) auto

lemma set_field_same: "map_of fs k = Some v \<Longrightarrow> set_field k v fs = fs"
  by (induction fs) (auto split: if_splits)

subsection \<open>What a record can change\<close>

lemma on_parsed_record_effects:
  "on_parsed r = Inr effs \<Longrightarrow> list_all is_record_effect effs"
  by (auto simp: on_parsed_def Let_def split: sum.splits if_splits)

lemma processSSELine_record_effects: "list_all is_record_effect (processSSELine parse data)"
  using on_parsed_record_effects
  by (auto simp: processSSELine_def split: option.splits sum.splits)

lemma process_lines_record_effects: "list_all is_record_effect (process_lines parse lines)"
  by (induction lines) (simp_all add: process_lines_def processSSELine_record_effects)

lemma read_loop_record_effects:
  "list_all is_record_effect (fst (read_loop parse d buffer chunks fin))"
proof (induction chunks arbitrary: d buffer)
  case Nil
  show ?case by (cases fin) (simp_all add: process_lines_record_effects)
next
  case (Cons v rest)
  show ?case
    by (simp only: read_loop_Cons fst_conv list_all_append process_lines_record_effects Cons.IH
          simp_thms)
qed

lemma read_loop_outcome:
  "snd (read_loop parse d buffer chunks fin) =
     (case fin of Done \<Rightarrow> None | ReadRejected e \<Rightarrow> Some e)"
proof (induction chunks arbitrary: d buffer)
  case Nil
  show ?case by (cases fin) simp_all
next
  case (Cons v rest)
  show ?case by (simp only: read_loop_Cons snd_conv Cons.IH)
qed

lemma try_block_record_effects: "list_all is_record_effect (fst (try_block parse fr))"
  by (auto simp: try_block_def read_loop_record_effects split: fetch_result.splits option.splits)

lemma try_block_outcome:
  "(snd (try_block parse fr) \<noteq> None \<and> snd (try_block parse fr) \<noteq> Some AbortError) =
     transport_failed fr"
  by (cases fr rule: transport_failed.cases)
     (simp_all add: try_block_def read_loop_outcome)

lemma record_effects_keep:
  "list_all is_record_effect effs \<Longrightarrow>
   error (run_effects effs s) = error s \<and> loading (run_effects effs s) = loading s \<and>
   streamActive (run_effects effs s) = streamActive s"
proof (induction effs arbitrary: s)
  case Nil
  show ?case by (simp add: run_effects_Nil)
next
  case (Cons e effs)
  then show ?case by (cases e) (simp_all add: run_effects_Cons)
qed

lemma record_effects_no_message:
  "list_all is_record_effect effs \<Longrightarrow> error_messages (effs @ rest) = error_messages rest"
proof (induction effs)
  case Nil
  show ?case by simp
next
  case (Cons e effs)
  then show ?case by (cases e) simp_all
qed

lemma record_effects_log_bound:
  "list_all is_record_effect effs \<Longrightarrow> length (thinking s) \<le> 12 \<Longrightarrow>
   length (thinking (run_effects effs s)) \<le> 12"
proof (induction effs arbitrary: s)
  case Nil
  then show ?case by (simp add: run_effects_Nil)
next
  case (Cons e effs)
  then show ?case by (cases e) (simp_all add: run_effects_Cons slice_last_def)
qed

lemma no_result_keeps_apiData:
  "\<not> list_ex is_result_effect effs \<Longrightarrow> list_all is_record_effect effs \<Longrightarrow>
   apiData (run_effects effs s) = apiData s"
proof (induction effs arbitrary: s)
  case Nil
  show ?case by (simp add: run_effects_Nil)
next
  case (Cons e effs)
  then show ?case by (cases e) (simp_all add: run_effects_Cons)
qed

subsection \<open>The setter calls of one submission\<close>

lemma handleSubmit_shape:
  "handleSubmit parse fr =
     [SetLoading True, SetStreamActive True, SetError None, SetApiData None, SetThinking []] @
     fst (try_block parse fr) @
     (case snd (try_block parse fr) of None \<Rightarrow> []
      | Some err \<Rightarrow> if err \<noteq> AbortError then [SetError (Some no_live_updates)] else []) @
     [SetStreamActive False, SetLoading False]"
  by (simp add: handleSubmit_def split: prod.splits option.splits)

lemma session_flags:
  "\<not> loading (run_effects (handleSubmit parse fr) s) \<and>
   \<not> streamActive (run_effects (handleSubmit parse fr) s)"
  by (simp add: handleSubmit_shape run_effects_append run_effects_Cons run_effects_Nil)

lemma session_error:
  "error (run_effects (handleSubmit parse fr) s) =
     (if transport_failed fr then Some no_live_updates else None)"
proof -
  let ?s1 = "run_effects
      [SetLoading True, SetStreamActive True, SetError None, SetApiData None, SetThinking []] s"
  have keep: "error (run_effects (fst (try_block parse fr)) ?s1) = None"
    using record_effects_keep [OF try_block_record_effects, of parse fr ?s1]
    by (simp add: run_effects_Cons run_effects_Nil)
  show ?thesis
    using keep try_block_outcome [of parse fr]
    by (auto simp: handleSubmit_shape run_effects_append run_effects_Cons run_effects_Nil
          split: option.splits)
qed

lemma session_messages:
  "error_messages (handleSubmit parse fr) =
     (if transport_failed fr then [no_live_updates] else [])"
  using try_block_outcome [of parse fr]
    record_effects_no_message [OF try_block_record_effects, of parse fr]
  by (auto simp: handleSubmit_shape split: option.splits)

lemma session_no_result:
  assumes "\<not> list_ex is_result_effect (fst (try_block parse fr))"
  shows "apiData (run_effects (handleSubmit parse fr) s) = None"
proof -
  let ?s1 = "run_effects
      [SetLoading True, SetStreamActive True, SetError None, SetApiData None, SetThinking []] s"
  have keep: "apiData (run_effects (fst (try_block parse fr)) ?s1) = None"
    using no_result_keeps_apiData [OF assms try_block_record_effects, of ?s1]
    by (simp add: run_effects_Cons run_effects_Nil)
  show ?thesis
    using keep
    by (auto simp: handleSubmit_shape run_effects_append run_effects_Cons run_effects_Nil
          split: option.splits)
qed

lemma session_log_bound: "length (thinking (run_effects (handleSubmit parse fr) s)) \<le> 12"
proof -
  let ?s1 = "run_effects
      [SetLoading True, SetStreamActive True, SetError None, SetApiData None, SetThinking []] s"
  have "length (thinking (run_effects (fst (try_block parse fr)) ?s1)) \<le> 12"
    by (rule record_effects_log_bound [OF try_block_record_effects])
       (simp add: run_effects_Cons run_effects_Nil)
  then show ?thesis
    by (auto simp: handleSubmit_shape run_effects_append run_effects_Cons run_effects_Nil
          split: option.splits)
qed

subsection \<open>Streams of ASCII text\<close>

lemma ascii_append: "ascii (a @ b) = ascii a @ ascii b"
  by (simp add: ascii_def)

lemma unat_ascii: "of_char c < (128::nat) \<Longrightarrow> unat (of_nat (of_char c) :: byte) = of_char c"
  by (simp add: unat_of_nat)

lemma decode_byte_ascii:
  "bytes_needed d = 0 \<Longrightarrow> of_char c < (128::nat) \<Longrightarrow>
   decode_byte d (of_nat (of_char c)) = (d, [of_char c])"
  by (simp add: decode_byte_def utf8_handler_def unat_ascii)

lemma decode_ascii_seen:
  "bytes_needed d = 0 \<Longrightarrow> bom_seen d \<Longrightarrow> \<forall>c\<in>set s. of_char c < (128::nat) \<Longrightarrow>
   decode d (ascii s) = (d, js s)"
  by (induction s) (simp_all add: ascii_def js_def decode_byte_ascii utf16_def)

lemma decode_ascii:
  assumes "s \<noteq> []" and "\<forall>c\<in>set s. of_char c < (128::nat)"
  shows "snd (decode new_decoder (ascii s)) = js s"
proof -
  obtain c cs where s: "s = c # cs" using assms(1) by (cases s) simp_all
  have c: "of_char c < (128::nat)" and cs: "\<forall>c\<in>set cs. of_char c < (128::nat)"
    using assms(2) s by simp_all
  have rest: "decode (new_decoder\<lparr>bom_seen := True\<rparr>) (ascii cs) =
      (new_decoder\<lparr>bom_seen := True\<rparr>, js cs)"
    by (rule decode_ascii_seen [OF _ _ cs]) (simp_all add: new_decoder_def)
  have first: "decode_byte new_decoder (of_nat (of_char c)) = (new_decoder, [of_char c])"
    by (rule decode_byte_ascii [OF _ c]) (simp add: new_decoder_def)
  have bom: "\<not> bom_seen new_decoder"
    by (simp add: new_decoder_def)
  have ne: "of_char c \<noteq> (0xFEFF::nat)"
    using c by simp
  have "decode new_decoder (ascii (c # cs)) =
      (new_decoder\<lparr>bom_seen := True\<rparr>, utf16 (of_char c) @ js cs)"
    using rest ne by (simp add: ascii_def first bom)
  then show ?thesis
    using c by (simp add: s utf16_def js_def)
qed

lemma split_nl_line: "0xA \<notin> set l \<Longrightarrow> split_nl (l @ 0xA # rest) = l # split_nl rest"
  by (induction l) (auto split: list.splits)

lemma read_loop_text:
  assumes "snd (decode d (concat chunks)) = T"
  shows "read_loop parse d [] chunks fin =
     (process_lines parse (butlast (split_nl T)) @
        fst (read_loop parse d (last (split_nl T)) [] fin),
      snd (read_loop parse d (last (split_nl T)) [] fin))"
proof -
  obtain d' where dec: "decode d (concat chunks) = (d', T)"
    using assms by (cases "decode d (concat chunks)") simp
  have "read_loop parse d [] chunks fin = read_loop parse d [] [concat chunks] fin"
    by (rule read_loop_concat) simp
  also have "\<dots> = (process_lines parse (butlast (split_nl T)) @
        fst (read_loop parse d (last (split_nl T)) [] fin),
      snd (read_loop parse d (last (split_nl T)) [] fin))"
    using dec by (cases fin) (simp_all add: pop_or_empty_def Let_def)
  finally show ?thesis .
qed

lemma process_lines_Nil: "process_lines parse [] = []"
  by (simp add: process_lines_def)

lemma data_line:
  "process_lines parse ((js ''data: '' @ p) # ls) = processSSELine parse p @ process_lines parse ls"
  by (simp add: process_lines_def startsWith_def js_def)

lemma one_record_stream:
  assumes "0xA \<notin> set p"
    and "snd (decode new_decoder (concat chunks)) = js ''data: '' @ p @ [0xA]"
  shows "read_loop parse new_decoder [] chunks fin =
     (processSSELine parse p, case fin of Done \<Rightarrow> None | ReadRejected e \<Rightarrow> Some e)"
proof -
  have T: "snd (decode new_decoder (concat chunks)) = (js ''data: '' @ p) @ 0xA # []"
    using assms(2) by simp
  have pre: "0xA \<notin> set (js ''data: '')"
    by (simp add: js_def)
  have sp: "split_nl ((js ''data: '' @ p) @ 0xA # []) = [js ''data: '' @ p, []]"
    using assms(1) pre by (simp only: split_nl_line set_append Un_iff split_nl.simps simp_thms)
  show ?thesis
    unfolding read_loop_text [OF T] sp
    by (cases fin) (simp_all add: data_line process_lines_Nil trim_def)
qed

lemma fetch_line_decoded:
  \<open>snd (decode new_decoder (concat [fetch_line])) = js ''data: '' @ js ''{"stage":"fetch"}'' @ [0xA]\<close>
proof -
  have \<open>snd (decode new_decoder (ascii (''data: {"stage":"fetch"}'' @ [CHR 0x0A]))) =
      js (''data: {"stage":"fetch"}'' @ [CHR 0x0A])\<close>
    by (rule decode_ascii) simp_all
  then show ?thesis
    by (simp add: fetch_line_def js_def)
qed

lemma sample_parse_fetch:
  \<open>processSSELine sample_parse (js ''{"stage":"fetch"}'') = [PushThinking fetch_event]\<close>
  by (simp add: processSSELine_def sample_parse_def on_parsed_def or_js_def or_default_def
      fetch_event_def trim_def is_space_def js_def)

lemma sample_parse_result:
  \<open>processSSELine sample_parse (js ''{"type":"result"}'') = [SetApiData (Some empty_result)]\<close>
  by (simp add: processSSELine_def sample_parse_def on_parsed_def or_js_def or_default_def
      normalizeResponse_def empty_result_def trim_def is_space_def js_def)

lemma fetch_line_loop:
  "read_loop sample_parse new_decoder [] [fetch_line] fin =
     ([PushThinking fetch_event], case fin of Done \<Rightarrow> None | ReadRejected e \<Rightarrow> Some e)"
  using one_record_stream [OF _ fetch_line_decoded, of sample_parse fin]
  by (simp add: sample_parse_fetch) (simp add: js_def)

section \<open>The progress log\<close>

lemma slice_last_slice_last:
  "slice_last n (slice_last n xs @ ys) = slice_last n (xs @ ys)"
  by (cases "length xs \<le> n") (auto simp: slice_last_def ac_simps)

lemma thinking_pushes:
  "thinking (run_effects (SetThinking [] # map PushThinking evs) s) = slice_last 12 evs"
proof (induction evs rule: rev_induct)
  case Nil
  show ?case by (simp add: run_effects_def slice_last_def)
next
  case (snoc e evs)
  have "run_effects (SetThinking [] # map PushThinking (evs @ [e])) s =
        apply_effect (PushThinking e) (run_effects (SetThinking [] # map PushThinking evs) s)"
    using run_effects_snoc [of "SetThinking [] # map PushThinking evs" "PushThinking e" s]
    by simp
  then show ?case
    by (simp add: snoc.IH slice_last_slice_last)
qed

text \<open>
  C3 (bounded log). Starting from the log emptied by a submission, after \<open>N\<close> progress
  events the log is the list of the events without its first \<open>N - 12\<close> entries, in arrival
  order, so its length is \<open>min N 12\<close>; and whatever the transport delivers, the log a
  submission leaves has at most 12 entries.
\<close>

theorem bounded_log:
  "thinking (run_effects (SetThinking [] # map PushThinking evs) s) =
     drop (length evs - 12) evs \<and>
   length (thinking (run_effects (SetThinking [] # map PushThinking evs) s)) =
     min (length evs) 12 \<and>
   length (thinking (run_effects (handleSubmit parse fr) s)) \<le> 12"
  by (simp add: thinking_pushes slice_last_def session_log_bound)

section \<open>Field precedence of a progress record\<close>

lemma chosen_or: "chosen outer inner d (or_default (or_js outer inner) d)"
  by (cases outer; cases inner) (auto simp: chosen_def or_default_def or_js_def)

text \<open>
  C4, as the code has it. For a parsed record that is not a result and counts as
  progress, \<open>stage\<close>, \<open>message\<close> and \<open>status\<close> are each taken from the top level when the
  value there is truthy, otherwise from \<open>data\<close> when the value there is truthy, otherwise
  from the default \<open>"thinking"\<close>, \<open>""\<close>, \<open>"info"\<close>.
\<close>

theorem truthy_precedence:
  assumes "r \<noteq> JNull"
    and "getp r (js ''type'') \<noteq> Some (JStr (js ''result''))"
    and "getp r (js ''type'') = Some (JStr (js ''thinking'')) \<or>
         truthy (getp r (js ''stage'')) \<or>
         truthy (opt_dot (getp r (js ''data'')) (js ''stage''))"
  shows "\<exists>ev. on_parsed r = Inr [PushThinking ev] \<and>
           chosen (getp r (js ''stage'')) (opt_dot (getp r (js ''data'')) (js ''stage''))
             (JStr (js ''thinking'')) (stage ev) \<and>
           chosen (getp r (js ''message'')) (opt_dot (getp r (js ''data'')) (js ''message''))
             (JStr (js '''')) (message ev) \<and>
           chosen (getp r (js ''status'')) (opt_dot (getp r (js ''data'')) (js ''status''))
             (JStr (js ''info'')) (status ev)"
proof -
  have prog: "getp r (js ''type'') = Some (JStr (js ''thinking'')) \<or>
      truthy (or_js (getp r (js ''stage'')) (opt_dot (getp r (js ''data'')) (js ''stage'')))"
    using assms(3) by (auto simp: or_js_def)
  have "on_parsed r = Inr [PushThinking
      \<lparr>stage = or_default (or_js (getp r (js ''stage''))
                 (opt_dot (getp r (js ''data'')) (js ''stage''))) (JStr (js ''thinking'')),
       message = or_default (or_js (getp r (js ''message''))
                 (opt_dot (getp r (js ''data'')) (js ''message''))) (JStr (js '''')),
       status = or_default (or_js (getp r (js ''status''))
                 (opt_dot (getp r (js ''data'')) (js ''status''))) (JStr (js ''info''))\<rparr>]"
    unfolding on_parsed_def dot_Some [OF assms(1)] opt_dot_Some [OF assms(1)]
    using assms(2) prog by (simp add: Let_def)
  then show ?thesis
    by (simp add: chosen_or)
qed

text \<open>
  A record with a truthy top-level \<open>stage\<close> and a different nested one: the top level
  wins, and the absent top-level \<open>message\<close> is read from \<open>data\<close>.
\<close>

theorem truthy_precedence_witness:
  "on_parsed both_levels_record =
     Inr [PushThinking \<lparr>stage = JStr (js ''fetch''), message = JStr (js ''Searching''),
                        status = JStr (js ''info'')\<rparr>]"
  using truthy_precedence [of both_levels_record]
  by (simp add: both_levels_record_def on_parsed_def or_js_def or_default_def js_def)

text \<open>
  C4 as stated fails: the top-level \<open>message\<close> of this record is present (the empty
  string), and the event carries the nested \<open>"nested"\<close>.
\<close>

theorem top_level_precedence_counterexample:
  "getp falsy_top_record (js ''message'') = Some (JStr (js '''')) \<and>
   on_parsed falsy_top_record =
     Inr [PushThinking \<lparr>stage = JStr (js ''thinking''), message = JStr (js ''nested''),
                        status = JStr (js ''info'')\<rparr>]"
  by (simp add: falsy_top_record_def on_parsed_def or_js_def or_default_def js_def)

section \<open>Highlights\<close>

lemma getp_normalize_highlights:
  "getp (normalizeResponse d) (js ''highlights'') =
     Some (case opt_dot d (js ''highlights'') of Some (JArr hs) \<Rightarrow> JArr hs | _ \<Rightarrow> JArr [])"
  by (simp add: normalizeResponse_def map_of_set_field js_def)

lemma coerce_highlight_case:
  "(case h of JStr s \<Rightarrow> JObj [(js ''title'', h)] | _ \<Rightarrow> h) = coerce_highlight h"
  by (cases h) simp_all

text \<open>
  C5, as the code has it. \<open>normalizeResponse\<close> keeps an array of highlights as it is,
  strings included, and gives the empty array for anything else; it is \<open>highlightCards\<close>,
  on the stored result, that turns each string element into a card with that title and
  leaves every other element unchanged.
\<close>

theorem highlights_pass_then_coerced:
  "getp (normalizeResponse d) (js ''highlights'') =
     Some (case opt_dot d (js ''highlights'') of Some (JArr hs) \<Rightarrow> JArr hs | _ \<Rightarrow> JArr []) \<and>
   highlightCards (Some (normalizeResponse d)) =
     (case opt_dot d (js ''highlights'') of Some (JArr hs) \<Rightarrow> map coerce_highlight hs | _ \<Rightarrow> [])"
proof -
  have opt: "opt_dot (Some (normalizeResponse d)) (js ''highlights'') =
      getp (normalizeResponse d) (js ''highlights'')"
    by (simp add: normalizeResponse_def)
  show ?thesis
    unfolding highlightCards_def opt getp_normalize_highlights
    by (simp add: coerce_highlight_case split: option.splits json.splits)
qed

text \<open>
  C5 as stated fails: the normalizer returns the string highlight \<open>"Goal"\<close> itself, not
  \<open>{title: "Goal"}\<close>.
\<close>

theorem normalizer_coerces_strings_counterexample:
  "getp (normalizeResponse (Some (JObj [(js ''highlights'', JArr [JStr (js ''Goal'')])])))
     (js ''highlights'') = Some (JArr [JStr (js ''Goal'')]) \<and>
   JArr [JStr (js ''Goal'')] \<noteq> JArr [JObj [(js ''title'', JStr (js ''Goal''))]]"
  by (simp add: normalizeResponse_def js_def)

section \<open>How a session ends\<close>

text \<open>
  C6, as the code has it. When the reader reports \<open>done\<close>, the submission ends with no
  error message and with \<open>loading\<close> and \<open>streamActive\<close> cleared; if no record stored a
  result, the result is still \<open>null\<close>. The sentinel \<open>[DONE]\<close> is a record that changes
  nothing. The message "No live updates available" is set exactly when the transport
  fails other than by an abort.
\<close>

theorem stream_end_sets_no_error:
  "error (run_effects (handleSubmit parse (Resolved (Response True (Some (chunks, Done))))) s)
     = None \<and>
   \<not> loading (run_effects (handleSubmit parse (Resolved (Response True (Some (chunks, Done))))) s) \<and>
   \<not> streamActive
       (run_effects (handleSubmit parse (Resolved (Response True (Some (chunks, Done))))) s) \<and>
   (\<not> list_ex is_result_effect (fst (read_loop parse new_decoder [] chunks Done)) \<longrightarrow>
      apiData (run_effects (handleSubmit parse (Resolved (Response True (Some (chunks, Done))))) s)
        = None) \<and>
   processSSELine parse (js ''[DONE]'') = [] \<and>
   (\<forall>fr. (error (run_effects (handleSubmit parse fr) s) = Some no_live_updates) =
            transport_failed fr)"
proof -
  let ?fr = "Resolved (Response True (Some (chunks, Done)))"
  have tb: "try_block parse ?fr = read_loop parse new_decoder [] chunks Done"
    by (simp add: try_block_def)
  have "\<not> list_ex is_result_effect (fst (read_loop parse new_decoder [] chunks Done)) \<longrightarrow>
      apiData (run_effects (handleSubmit parse ?fr) s) = None"
    using session_no_result [of parse ?fr s] by (simp add: tb)
  moreover have "error (run_effects (handleSubmit parse ?fr) s) = None"
    by (simp add: session_error)
  moreover have "processSSELine parse (js ''[DONE]'') = []"
    by (simp add: processSSELine_def)
  moreover have "\<forall>fr. (error (run_effects (handleSubmit parse fr) s) = Some no_live_updates) =
            transport_failed fr"
    by (simp add: session_error)
  ultimately show ?thesis
    using session_flags [of parse ?fr s] by blast
qed

text \<open>A stream of one progress record that then closes: no error, no result, one log entry.\<close>

theorem stream_end_sets_no_error_witness:
  "error (run_effects (handleSubmit sample_parse
            (Resolved (Response True (Some ([fetch_line], Done))))) initial_state) = None \<and>
   apiData (run_effects (handleSubmit sample_parse
            (Resolved (Response True (Some ([fetch_line], Done))))) initial_state) = None \<and>
   read_loop sample_parse new_decoder [] [fetch_line] Done = ([PushThinking fetch_event], None)"
  using stream_end_sets_no_error [of sample_parse "[fetch_line]" initial_state]
  by (simp add: fetch_line_loop del: read_loop.simps)

text \<open>
  C6 as stated fails: a stream that closes at once, and a stream that carries only the
  sentinel and closes, both without any result and without an abort, end with no error
  message.
\<close>

theorem stream_end_errored_counterexample:
  "error (run_effects (handleSubmit (\<lambda>s. None)
            (Resolved (Response True (Some ([], Done))))) initial_state) = None \<and>
   apiData (run_effects (handleSubmit (\<lambda>s. None)
            (Resolved (Response True (Some ([], Done))))) initial_state) = None \<and>
   error (run_effects (handleSubmit (\<lambda>s. None)
            (Resolved (Response True
               (Some ([ascii (''data: [DONE]'' @ [CHR 0x0A])], Done))))) initial_state) = None \<and>
   Some no_live_updates \<noteq> (None :: jsstring option)"
  by (simp add: session_error)
     (simp add: handleSubmit_def try_block_def run_effects_def trim_def)

text \<open>
  C8 (cancellation). When the controller is aborted, before the response arrives or while
  the stream is being read, the submission shows no error message: no setter call carries
  one, \<open>error\<close> stays \<open>null\<close>, \<open>loading\<close> and \<open>streamActive\<close> are cleared; and if no record
  stored a result before the abort, the result is still \<open>null\<close>.
\<close>

theorem cancellation_is_not_an_error:
  "error_messages (handleSubmit parse (Rejected AbortError)) = [] \<and>
   error (run_effects (handleSubmit parse (Rejected AbortError)) s) = None \<and>
   error_messages
     (handleSubmit parse (Resolved (Response True (Some (chunks, ReadRejected AbortError))))) = [] \<and>
   error (run_effects
     (handleSubmit parse (Resolved (Response True (Some (chunks, ReadRejected AbortError))))) s)
     = None \<and>
   \<not> loading (run_effects
     (handleSubmit parse (Resolved (Response True (Some (chunks, ReadRejected AbortError))))) s) \<and>
   \<not> streamActive (run_effects
     (handleSubmit parse (Resolved (Response True (Some (chunks, ReadRejected AbortError))))) s) \<and>
   (\<not> list_ex is_result_effect
        (fst (read_loop parse new_decoder [] chunks (ReadRejected AbortError))) \<longrightarrow>
      apiData (run_effects
        (handleSubmit parse (Resolved (Response True (Some (chunks, ReadRejected AbortError))))) s)
        = None)"
proof -
  let ?fr = "Resolved (Response True (Some (chunks, ReadRejected AbortError)))"
  have tb: "try_block parse ?fr = read_loop parse new_decoder [] chunks (ReadRejected AbortError)"
    by (simp add: try_block_def)
  have "\<not> list_ex is_result_effect
        (fst (read_loop parse new_decoder [] chunks (ReadRejected AbortError))) \<longrightarrow>
      apiData (run_effects (handleSubmit parse ?fr) s) = None"
    using session_no_result [of parse ?fr s] by (simp add: tb)
  moreover have "error_messages (handleSubmit parse ?fr) = []"
    by (simp add: session_messages)
  moreover have "error (run_effects (handleSubmit parse ?fr) s) = None"
    by (simp add: session_error)
  moreover have "error_messages (handleSubmit parse (Rejected AbortError)) = []"
    by (simp add: session_messages)
  moreover have "error (run_effects (handleSubmit parse (Rejected AbortError)) s) = None"
    by (simp add: session_error)
  ultimately show ?thesis
    using session_flags [of parse ?fr s] by blast
qed

text \<open>One progress record arrives, then the read is aborted.\<close>

theorem cancellation_is_not_an_error_witness:
  "read_loop sample_parse new_decoder [] [fetch_line] (ReadRejected AbortError) =
     ([PushThinking fetch_event], Some AbortError) \<and>
   error_messages (handleSubmit sample_parse
     (Resolved (Response True (Some ([fetch_line], ReadRejected AbortError))))) = [] \<and>
   error (run_effects (handleSubmit sample_parse
     (Resolved (Response True (Some ([fetch_line], ReadRejected AbortError))))) initial_state)
     = None \<and>
   apiData (run_effects (handleSubmit sample_parse
     (Resolved (Response True (Some ([fetch_line], ReadRejected AbortError))))) initial_state)
     = None"
  using cancellation_is_not_an_error [of sample_parse initial_state "[fetch_line]"]
  by (simp add: fetch_line_loop del: read_loop.simps)

section \<open>Malformed records\<close>

text \<open>
  C7 (malformed records are skipped). A stream of three records, the middle one with a
  payload that \<open>JSON.parse\<close> rejects and the other two each making one setter call, makes
  exactly those two calls in order and ends normally; the malformed record makes no call
  and leaves the state as it is. This holds for every way the stream is cut into chunks.
\<close>

theorem malformed_record_skipped:
  assumes "parse bad = None"
    and "0xA \<notin> set p1" and "0xA \<notin> set bad" and "0xA \<notin> set p2"
    and "processSSELine parse p1 = [e1]" and "processSSELine parse p2 = [e2]"
    and "snd (decode new_decoder (concat chunks)) =
           js ''data: '' @ p1 @ [0xA] @ js ''data: '' @ bad @ [0xA] @ js ''data: '' @ p2 @ [0xA]"
  shows "read_loop parse new_decoder [] chunks Done = ([e1, e2], None) \<and>
         processSSELine parse bad = [] \<and>
         run_effects (processSSELine parse bad) s = s"
proof -
  have bad: "processSSELine parse bad = []"
    using assms(1) by (simp add: processSSELine_def)
  have pre: "0xA \<notin> set (js ''data: '')"
    by (simp add: js_def)
  let ?T = "(js ''data: '' @ p1) @ 0xA # (js ''data: '' @ bad) @ 0xA # (js ''data: '' @ p2) @ 0xA # []"
  have sp: "split_nl ?T = [js ''data: '' @ p1, js ''data: '' @ bad, js ''data: '' @ p2, []]"
    using assms(2-4) pre by (simp only: split_nl_line set_append Un_iff split_nl.simps simp_thms)
  have T: "snd (decode new_decoder (concat chunks)) = ?T"
    using assms(7) by simp
  have "read_loop parse new_decoder [] chunks Done = ([e1, e2], None)"
    unfolding read_loop_text [OF T] sp
    by (simp add: data_line process_lines_Nil bad assms(5,6) trim_def)
  then show ?thesis
    by (simp add: bad run_effects_def)
qed

text \<open>
  The three records of \<open>three_record_chunks\<close>, the chunk boundary inside the malformed
  payload: the progress event and the result are the two calls made.
\<close>

theorem malformed_record_skipped_witness:
  "read_loop sample_parse new_decoder [] three_record_chunks Done =
     ([PushThinking fetch_event, SetApiData (Some empty_result)], None)"
proof -
  have h1: \<open>sample_parse (js ''{"stage":'') = None\<close>
    by (simp add: sample_parse_def js_def)
  have h2: \<open>0xA \<notin> set (js ''{"stage":"fetch"}'')\<close>
    and h3: \<open>0xA \<notin> set (js ''{"stage":'')\<close>
    and h4: \<open>0xA \<notin> set (js ''{"type":"result"}'')\<close>
    by (simp_all add: js_def)
  have \<open>snd (decode new_decoder
          (ascii (''data: {"stage":"fetch"}'' @ [CHR 0x0A] @ ''data: {"stage":'' @ [CHR 0x0A] @
                  ''data: {"type":"result"}'' @ [CHR 0x0A]))) =
        js (''data: {"stage":"fetch"}'' @ [CHR 0x0A] @ ''data: {"stage":'' @ [CHR 0x0A] @
            ''data: {"type":"result"}'' @ [CHR 0x0A])\<close>
    by (rule decode_ascii) simp_all
  then have h7: \<open>snd (decode new_decoder (concat three_record_chunks)) =
      js ''data: '' @ js ''{"stage":"fetch"}'' @ [0xA] @ js ''data: '' @ js ''{"stage":'' @ [0xA] @
      js ''data: '' @ js ''{"type":"result"}'' @ [0xA]\<close>
    by (simp add: three_record_chunks_def ascii_append [symmetric] js_def)
  show ?thesis
    using malformed_record_skipped [OF h1 h2 h3 h4 sample_parse_fetch sample_parse_result h7]
    by simp
qed

section \<open>Normalizing twice\<close>

subsection \<open>Index keys are not property names of the source\<close>

lemma last_decimal: "last (decimal n) = digit (n mod 10)"
  by (subst decimal.simps) simp

lemma unat_digit: "k < 10 \<Longrightarrow> unat (digit k) = 48 + k"
  by (simp only: digit_def unat_of_nat) simp

lemma decimal_not_success: "decimal n \<noteq> js ''success''"
proof
  assume "decimal n = js ''success''"
  then have "last (decimal n) = last (js ''success'')" by simp
  then have "digit (n mod 10) = (115 :: cunit)"
    by (simp only: last_decimal) (simp add: js_def)
  then have "unat (digit (n mod 10)) = unat (115 :: cunit)"
    by simp
  then show False by (simp add: unat_digit)
qed

lemma map_of_indexed_success: "map_of (indexed xs) (js ''success'') = None"
  by (auto simp: map_of_eq_None_iff indexed_def decimal_not_success [symmetric])

lemma decimal_not_answer: "decimal n \<noteq> js ''answer''"
proof
  assume "decimal n = js ''answer''"
  then have "last (decimal n) = last (js ''answer'')" by simp
  then have "digit (n mod 10) = (114 :: cunit)"
    by (simp only: last_decimal) (simp add: js_def)
  then have "unat (digit (n mod 10)) = unat (114 :: cunit)"
    by simp
  then show False by (simp add: unat_digit)
qed

lemma map_of_indexed_answer: "map_of (indexed xs) (js ''answer'') = None"
  by (auto simp: map_of_eq_None_iff indexed_def decimal_not_answer [symmetric])

lemma spread_answer: "map_of (spread d) (js ''answer'') = opt_dot d (js ''answer'')"
  by (cases d rule: spread.cases) (auto simp: map_of_indexed_answer)

lemma nullish_twice:
  "nullish_default (nullish (Some (nullish_default (nullish a b) JNull)) b) JNull =
   nullish_default (nullish a b) JNull"
  by (cases "(a, JNull)" rule: nullish_default.cases;
      cases "(b, JNull)" rule: nullish_default.cases) simp_all

text \<open>Normalizing any value a second time changes nothing.\<close>

lemma normalize_idempotent:
  "normalizeResponse (Some (normalizeResponse d)) = normalizeResponse d"
proof -
  define M where "M = nullish_default
      (nullish (opt_dot d (js ''summary'')) (opt_dot d (js ''answer''))) JNull"
  define H where "H = (case opt_dot d (js ''highlights'') of
      Some (JArr xs) \<Rightarrow> JArr xs | _ \<Rightarrow> JArr [])"
  define S where "S = (case opt_dot d (js ''sources'') of
      Some (JArr xs) \<Rightarrow> JArr xs | _ \<Rightarrow> JArr [])"
  define F where "F = set_field (js ''sources'') S
      (set_field (js ''highlights'') H (set_field (js ''summary'') M (spread d)))"
  have nd: "normalizeResponse d = JObj F"
    by (simp add: normalizeResponse_def F_def M_def H_def S_def)
  have "\<exists>hs. H = JArr hs"
    by (simp add: H_def split: option.splits json.splits)
  then obtain hs where H: "H = JArr hs" ..
  have "\<exists>ss. S = JArr ss"
    by (simp add: S_def split: option.splits json.splits)
  then obtain ss where S: "S = JArr ss" ..
  have ne: "js ''answer'' \<noteq> js ''sources''" "js ''answer'' \<noteq> js ''highlights''"
    "js ''answer'' \<noteq> js ''summary''" "js ''summary'' \<noteq> js ''sources''"
    "js ''summary'' \<noteq> js ''highlights''" "js ''highlights'' \<noteq> js ''sources''"
    by (simp_all add: js_def)
  have f1: "map_of F (js ''summary'') = Some M"
    and f2: "map_of F (js ''highlights'') = Some H"
    and f3: "map_of F (js ''sources'') = Some S"
    and f4: "map_of F (js ''answer'') = opt_dot d (js ''answer'')"
    using ne by (simp_all add: F_def map_of_set_field spread_answer)
  have m: "nullish_default (nullish (Some M) (opt_dot d (js ''answer''))) JNull = M"
    unfolding M_def by (rule nullish_twice)
  have "normalizeResponse (Some (JObj F)) =
      JObj (set_field (js ''sources'') S
        (set_field (js ''highlights'') H (set_field (js ''summary'') M F)))"
    by (simp add: normalizeResponse_def f1 f2 f3 f4 m H S)
  also have "\<dots> = JObj F"
    by (simp add: set_field_same f1 f2 f3)
  finally show ?thesis
    by (simp add: nd)
qed

subsection \<open>Normalized results are fixed points\<close>

text \<open>
  C9 (normalization is idempotent on normalized results). A result object whose
  \<open>summary\<close> is present (neither missing nor \<open>null\<close>) and whose \<open>highlights\<close> and \<open>sources\<close>
  are arrays is returned by \<open>normalizeResponse\<close> as it is, property order included.
\<close>

theorem normalize_fixed_point:
  assumes "map_of fs (js ''summary'') = Some v" and "v \<noteq> JNull"
    and "map_of fs (js ''highlights'') = Some (JArr hs)"
    and "map_of fs (js ''sources'') = Some (JArr ss)"
  shows "normalizeResponse (Some (JObj fs)) = JObj fs"
proof -
  have "nullish_default (nullish (Some v) (map_of fs (js ''answer''))) JNull = v"
    using assms(2) by (cases v) simp_all
  then show ?thesis
    using assms by (simp add: normalizeResponse_def set_field_same)
qed

theorem normalize_fixed_point_witness:
  "normalizeResponse (Some (JObj normalized_sample)) = JObj normalized_sample"
proof -
  have h1: "map_of normalized_sample (js ''summary'') = Some (JStr (js ''Team A won''))"
    and h3: "map_of normalized_sample (js ''highlights'') =
               Some (JArr [JObj [(js ''title'', JStr (js ''Goal''))]])"
    and h4: "map_of normalized_sample (js ''sources'') = Some (JArr [])"
    by (simp_all add: normalized_sample_def js_def)
  have h2: "JStr (js ''Team A won'') \<noteq> JNull"
    by simp
  show ?thesis
    by (rule normalize_fixed_point [OF h1 h2 h3 h4])
qed

section \<open>Result records\<close>

lemma non_object_opt_dot: "\<forall>fs. d \<noteq> Some (JObj fs) \<Longrightarrow> opt_dot d k = None"
  by (cases "(d, k)" rule: opt_dot.cases) auto

lemma non_object_spread_success:
  "\<forall>fs. d \<noteq> Some (JObj fs) \<Longrightarrow> map_of (spread d) (js ''success'') = None"
  by (cases d rule: spread.cases) (auto simp: map_of_indexed_success)

lemma normalize_non_object:
  assumes "\<forall>fs. d \<noteq> Some (JObj fs)"
  shows "getp (normalizeResponse d) (js ''summary'') = Some JNull"
    and "getp (normalizeResponse d) (js ''highlights'') = Some (JArr [])"
    and "getp (normalizeResponse d) (js ''sources'') = Some (JArr [])"
    and "getp (normalizeResponse d) (js ''success'') = None"
  using non_object_spread_success [OF assms]
  by (simp_all add: normalizeResponse_def map_of_set_field non_object_opt_dot [OF assms] js_def)

lemma on_parsed_result:
  assumes "getp r (js ''type'') = Some (JStr (js ''result''))"
  shows "on_parsed r =
    (if getp (normalizeResponse (getp r (js ''data''))) (js ''success'') = Some (JBool False)
     then Inr [SetApiData (Some (JObj (set_field (js ''error'')
                 (or_default (getp (normalizeResponse (getp r (js ''data''))) (js ''error''))
                    (JStr (js ''The API returned an unsuccessful response.'')))
                 (spread (Some (normalizeResponse (getp r (js ''data''))))))))]
     else Inr [SetApiData (Some (normalizeResponse (getp r (js ''data''))))])"
  unfolding on_parsed_def dot_Some [OF getp_Some_not_null [OF assms]]
  using assms by (simp add: Let_def)

text \<open>
  C10 (a result comes from \<open>data\<close> alone). Two records of type \<open>"result"\<close> with the same
  \<open>data\<close> make the same setter call, whatever else they hold at the top level. When
  \<open>data\<close> is missing or is not an object, the call stores a value whose \<open>summary\<close> is
  \<open>null\<close> and whose \<open>highlights\<close> and \<open>sources\<close> are empty arrays, and that value replaces
  the current result.
\<close>

theorem result_only_from_data:
  assumes "getp r (js ''type'') = Some (JStr (js ''result''))"
  shows "(\<forall>r'. getp r' (js ''type'') = Some (JStr (js ''result'')) \<and>
               getp r' (js ''data'') = getp r (js ''data'') \<longrightarrow> on_parsed r' = on_parsed r) \<and>
         ((\<forall>fs. getp r (js ''data'') \<noteq> Some (JObj fs)) \<longrightarrow>
            (\<exists>res. on_parsed r = Inr [SetApiData (Some res)] \<and>
                   getp res (js ''summary'') = Some JNull \<and>
                   getp res (js ''highlights'') = Some (JArr []) \<and>
                   getp res (js ''sources'') = Some (JArr []) \<and>
                   apiData (run_effects [SetApiData (Some res)] s) = Some res))"
proof (intro conjI allI impI)
  fix r'
  assume "getp r' (js ''type'') = Some (JStr (js ''result'')) \<and>
          getp r' (js ''data'') = getp r (js ''data'')"
  then show "on_parsed r' = on_parsed r"
    by (simp add: on_parsed_result assms)
next
  assume no: "\<forall>fs. getp r (js ''data'') \<noteq> Some (JObj fs)"
  have "on_parsed r = Inr [SetApiData (Some (normalizeResponse (getp r (js ''data''))))]"
    by (simp add: on_parsed_result [OF assms] normalize_non_object(4) [OF no])
  then show "\<exists>res. on_parsed r = Inr [SetApiData (Some res)] \<and>
                   getp res (js ''summary'') = Some JNull \<and>
                   getp res (js ''highlights'') = Some (JArr []) \<and>
                   getp res (js ''sources'') = Some (JArr []) \<and>
                   apiData (run_effects [SetApiData (Some res)] s) = Some res"
    using normalize_non_object(1-3) [OF no] by (simp add: run_effects_def)
qed

text \<open>
  A result record whose \<open>data\<close> is the string \<open>"ab"\<close> and which has a top-level \<open>summary\<close>:
  the stored value has the code units of the string under their indices and a \<open>null\<close>
  summary; the top-level \<open>summary\<close> plays no part.
\<close>

theorem result_only_from_data_witness:
  "on_parsed string_data_record =
     Inr [SetApiData (Some (JObj [(js ''0'', JStr (js ''a'')), (js ''1'', JStr (js ''b'')),
            (js ''summary'', JNull), (js ''highlights'', JArr []), (js ''sources'', JArr [])]))] \<and>
   on_parsed (JObj [(js ''data'', JStr (js ''ab'')), (js ''type'', JStr (js ''result''))]) =
     on_parsed string_data_record"
  using result_only_from_data [of string_data_record]
  by (simp add: string_data_record_def on_parsed_def normalizeResponse_def indexed_def
      digit_def decimal.simps js_def upt_rec)

end
